theory Spec2Isabelle
  imports Complex_Main
begin

section \<open>Data model\<close>

text \<open>
  The Python code computes on \<open>float\<close> values. They are modelled as real numbers:
  every arithmetic operation is exact, so rounding, overflow, infinities and NaN of
  IEEE doubles are outside this development. Node and element ids are Python \<open>int\<close>s.
\<close>

text \<open>The exceptions the code raises: \<open>ValueError\<close> (an invalid argument),
  \<open>KeyError\<close> (an id that is not found), \<open>RuntimeError\<close> (dataset not loaded).\<close>

datatype error = ValueError | KeyError | RuntimeError

text \<open>A node entry \<open>{'x': .., 'y': .., 'z': ..}\<close> of \<open>DataLoader.nodes\<close>; the keys
  are the fields \<open>cx\<close>, \<open>cy\<close>, \<open>cz\<close>.\<close>

record node_coords =
  cx :: real
  cy :: real
  cz :: real

text \<open>An entry \<open>{'node_i': .., 'node_j': ..}\<close> of \<open>DataLoader.elements\<close>.\<close>

record elem_nodes =
  node_i :: int
  node_j :: int

text \<open>What \<open>dataset.sel(element=id)\<close> gives for one element: the component labels
  \<open>elem['Component'].values\<close> and the flattened array \<open>elem['forces'].values.flatten()\<close>.\<close>

record elem_row =
  Component :: "string list"
  forces :: "real list"

text \<open>The dictionary \<open>get_element_data\<close> returns, with its four fixed keys.\<close>

record elem_data =
  Mz_i :: real
  Mz_j :: real
  Vy_i :: real
  Vy_j :: real

text \<open>The state of a \<open>DataLoader\<close>: \<open>dataset\<close> is \<open>None\<close> until it is loaded.\<close>

record data_loader =
  dataset :: "(int \<rightharpoonup> elem_row) option"
  nodes :: "int \<rightharpoonup> node_coords"
  elements :: "int \<rightharpoonup> elem_nodes"

section \<open>load\_data.py: the accessors of DataLoader\<close>

definition get_node_coords :: "data_loader \<Rightarrow> int \<Rightarrow> error + node_coords" where
  "get_node_coords dl node_id =
     (case nodes dl node_id of None \<Rightarrow> Inl KeyError | Some c \<Rightarrow> Inr c)"

definition get_element_nodes :: "data_loader \<Rightarrow> int \<Rightarrow> error + elem_nodes" where
  "get_element_nodes dl element_id =
     (case elements dl element_id of None \<Rightarrow> Inl KeyError | Some n \<Rightarrow> Inr n)"

text \<open>The dictionary comprehension
  \<open>{str(components[i]): float(forces[i]) for i in range(len(components))}\<close>:
  keys are inserted in index order, a later duplicate label overwrites an earlier one.\<close>

definition build_comp_map :: "string list \<Rightarrow> real list \<Rightarrow> (string \<rightharpoonup> real)" where
  "build_comp_map components fs =
     fold (\<lambda>(k, v) m. m(k \<mapsto> v)) (zip components fs) Map.empty"

text \<open>The local function \<open>find(keys)\<close>: the value of the first key that is in
  \<open>comp_map\<close>, and \<open>0.0\<close> when there is none.\<close>

fun find' :: "(string \<rightharpoonup> real) \<Rightarrow> string list \<Rightarrow> real" where
  "find' comp_map [] = 0"
| "find' comp_map (k # keys) =
     (case comp_map k of Some v \<Rightarrow> v | None \<Rightarrow> find' comp_map keys)"

text \<open>The alias lists of the four ends, as written in the source.\<close>

definition Mz_i_keys :: "string list" where
  "Mz_i_keys = [''Mz_i'', ''MZ_I'', ''MZ_I_END'', ''BM_I'', ''Mz'']"

definition Mz_j_keys :: "string list" where
  "Mz_j_keys = [''Mz_j'', ''MZ_J'', ''MZ_J_END'', ''BM_J'', ''Mz'']"

definition Vy_i_keys :: "string list" where
  "Vy_i_keys = [''Vy_i'', ''VY_I'', ''SF_I'', ''Vy'']"

definition Vy_j_keys :: "string list" where
  "Vy_j_keys = [''Vy_j'', ''VY_J'', ''SF_J'', ''Vy'']"

text \<open>
  \<open>get_element_data\<close>: \<open>RuntimeError\<close> when the dataset is not loaded (raised before
  the \<open>try\<close>); inside the \<open>try\<close> every exception becomes a \<open>KeyError\<close>: the id that
  \<open>sel\<close> does not find, and the \<open>IndexError\<close> of \<open>forces[i]\<close> when the flattened
  force array is shorter than the label array.
\<close>

definition get_element_data :: "data_loader \<Rightarrow> int \<Rightarrow> error + elem_data" where
  "get_element_data dl element_id =
     (case dataset dl of
        None \<Rightarrow> Inl RuntimeError
      | Some ds \<Rightarrow>
         (case ds element_id of
            None \<Rightarrow> Inl KeyError
          | Some elem \<Rightarrow>
             (let components = Component elem; fs = forces elem in
              if length fs < length components then Inl KeyError
              else
                (let comp_map = build_comp_map components fs in
                 Inr \<lparr>Mz_i = find' comp_map Mz_i_keys,
                      Mz_j = find' comp_map Mz_j_keys,
                      Vy_i = find' comp_map Vy_i_keys,
                      Vy_j = find' comp_map Vy_j_keys\<rparr>))))"

section \<open>geometry\_utils.py\<close>

subsection \<open>The girder topology table\<close>

text \<open>\<open>GIRDER_CONFIGS\<close> is a dictionary of dictionaries with string keys; both levels
  are association lists in the order of the source.\<close>

definition GIRDER_CONFIGS :: "(string \<times> (string \<times> int list) list) list" where
  "GIRDER_CONFIGS =
     [(''Girder_1'', [(''elements'', [13, 22, 31, 40, 49, 58, 67, 76, 81]),
                      (''nodes'', [1, 11, 16, 21, 26, 31, 36, 41, 46, 6])]),
      (''Girder_2'', [(''elements'', [14, 23, 32, 41, 50, 59, 68, 77, 82]),
                      (''nodes'', [2, 12, 17, 22, 27, 32, 37, 42, 47, 7])]),
      (''Girder_3'', [(''elements'', [15, 24, 33, 42, 51, 60, 69, 78, 83]),
                      (''nodes'', [3, 13, 18, 23, 28, 33, 38, 43, 48, 8])]),
      (''Girder_4'', [(''elements'', [16, 25, 34, 43, 52, 61, 70, 79, 84]),
                      (''nodes'', [4, 14, 19, 24, 29, 34, 39, 44, 49, 9])]),
      (''Girder_5'', [(''elements'', [17, 26, 35, 44, 53, 62, 71, 80, 85]),
                      (''nodes'', [5, 15, 20, 25, 30, 35, 40, 45, 50, 10])])]"

text \<open>The pair (number of elements, number of nodes) of one girder entry; \<open>None\<close>
  where the entry lacks the key.\<close>

definition girder_sizes :: "(string \<times> int list) list \<Rightarrow> nat option \<times> nat option" where
  "girder_sizes cfg =
     (map_option length (map_of cfg ''elements''), map_option length (map_of cfg ''nodes''))"

subsection \<open>Lookup calls\<close>

text \<open>A call of one of the three accessors, with its argument. The extractors return
  the list of the calls they made, in order, next to their result, so that "no lookup
  was made" is a statement about this list.\<close>

datatype lookup_call =
  Get_element_data int
| Get_element_nodes int
| Get_node_coords int

text \<open>
  The four lookups at the head of the loop body, the same in both extractors:
  \<open>get_element_data(elem_id)\<close>, \<open>get_element_nodes(elem_id)\<close>,
  \<open>get_node_coords(node_i)\<close>, \<open>get_node_coords(node_j)\<close>. The first one that raises
  ends the sequence.
\<close>

definition element_lookups ::
  "data_loader \<Rightarrow> int \<Rightarrow> lookup_call list \<times> (error + elem_data \<times> node_coords \<times> node_coords)" where
  "element_lookups dl elem_id =
     (case get_element_data dl elem_id of
        Inl e \<Rightarrow> ([Get_element_data elem_id], Inl e)
      | Inr ed \<Rightarrow>
         (case get_element_nodes dl elem_id of
            Inl e \<Rightarrow> ([Get_element_data elem_id, Get_element_nodes elem_id], Inl e)
          | Inr en \<Rightarrow>
             (case get_node_coords dl (node_i en) of
                Inl e \<Rightarrow>
                  ([Get_element_data elem_id, Get_element_nodes elem_id,
                    Get_node_coords (node_i en)], Inl e)
              | Inr coord_i \<Rightarrow>
                 (case get_node_coords dl (node_j en) of
                    Inl e \<Rightarrow>
                      ([Get_element_data elem_id, Get_element_nodes elem_id,
                        Get_node_coords (node_i en), Get_node_coords (node_j en)], Inl e)
                  | Inr coord_j \<Rightarrow>
                      ([Get_element_data elem_id, Get_element_nodes elem_id,
                        Get_node_coords (node_i en), Get_node_coords (node_j en)],
                       Inr (ed, coord_i, coord_j))))))"

subsection \<open>extract\_girder\_forces\<close>

text \<open>\<open>elem_data[key]\<close> for a key built at run time: a \<open>KeyError\<close> for a key that
  is not one of the four.\<close>

definition elem_data_getitem :: "elem_data \<Rightarrow> string \<Rightarrow> error + real" where
  "elem_data_getitem ed k =
     (if k = ''Mz_i'' then Inr (Mz_i ed)
      else if k = ''Mz_j'' then Inr (Mz_j ed)
      else if k = ''Vy_i'' then Inr (Vy_i ed)
      else if k = ''Vy_j'' then Inr (Vy_j ed)
      else Inl KeyError)"

text \<open>The true 3D length of an element, from the coordinates of its two nodes.\<close>

definition elem_length :: "node_coords \<Rightarrow> node_coords \<Rightarrow> real" where
  "elem_length coord_i coord_j =
     sqrt ((cx coord_j - cx coord_i)\<^sup>2 + (cy coord_j - cy coord_i)\<^sup>2
           + (cz coord_j - cz coord_i)\<^sup>2)"

text \<open>
  The \<open>for i, elem_id in enumerate(element_list)\<close> loop. The state is
  \<open>(positions, values, current_position)\<close>; \<open>i\<close> is the index of the head of the
  remaining list. An exception ends the loop with the calls made so far.
\<close>

fun extract_loop ::
  "data_loader \<Rightarrow> string \<Rightarrow> nat \<Rightarrow> int list \<Rightarrow> real list \<times> real list \<times> real
   \<Rightarrow> lookup_call list \<times> (error + real list \<times> real list)" where
  "extract_loop dl force_type i [] (positions, vals, current_position) =
     ([], Inr (positions, vals))"
| "extract_loop dl force_type i (elem_id # rest) (positions, vals, current_position) =
     (case element_lookups dl elem_id of
        (cs, Inl e) \<Rightarrow> (cs, Inl e)
      | (cs, Inr (ed, coord_i, coord_j)) \<Rightarrow>
         (case (if i = 0
                then map_sum id (\<lambda>v. vals @ [v]) (elem_data_getitem ed (force_type @ ''_i''))
                else Inr vals) of
            Inl e \<Rightarrow> (cs, Inl e)
          | Inr vals1 \<Rightarrow>
             (case elem_data_getitem ed (force_type @ ''_j'') of
                Inl e \<Rightarrow> (cs, Inl e)
              | Inr vj \<Rightarrow>
                 (case extract_loop dl force_type (Suc i) rest
                         (positions @ [current_position + elem_length coord_i coord_j],
                          vals1 @ [vj],
                          current_position + elem_length coord_i coord_j) of
                    (cs', r) \<Rightarrow> (cs @ cs', r)))))"

definition extract_girder_forces ::
  "data_loader \<Rightarrow> int list \<Rightarrow> string
   \<Rightarrow> lookup_call list \<times> (error + real list \<times> real list)" where
  "extract_girder_forces dl element_list force_type =
     (if force_type \<notin> set [''Mz'', ''Vy''] then ([], Inl ValueError)
      else extract_loop dl force_type 0 element_list ([0], [], 0))"

subsection \<open>get\_girder\_3d\_geometry\<close>

text \<open>
  The loop of \<open>get_girder_3d_geometry\<close>, with the state
  \<open>(xs, ys, zs, mz_values, vy_values)\<close>. It makes the same four lookups for each
  element and reads the keys \<open>Mz_i\<close>, \<open>Vy_i\<close>, \<open>Mz_j\<close>, \<open>Vy_j\<close> of the
  element data directly.
\<close>

fun geometry_loop ::
  "data_loader \<Rightarrow> nat \<Rightarrow> int list
   \<Rightarrow> real list \<times> real list \<times> real list \<times> real list \<times> real list
   \<Rightarrow> lookup_call list \<times> (error + real list \<times> real list \<times> real list \<times> real list \<times> real list)" where
  "geometry_loop dl i [] (xs, ys, zs, mz_values, vy_values) =
     ([], Inr (xs, ys, zs, mz_values, vy_values))"
| "geometry_loop dl i (elem_id # rest) (xs, ys, zs, mz_values, vy_values) =
     (case element_lookups dl elem_id of
        (cs, Inl e) \<Rightarrow> (cs, Inl e)
      | (cs, Inr (ed, coord_i, coord_j)) \<Rightarrow>
         (case geometry_loop dl (Suc i) rest
                 ((if i = 0 then xs @ [cx coord_i] else xs) @ [cx coord_j],
                  (if i = 0 then ys @ [cy coord_i] else ys) @ [cy coord_j],
                  (if i = 0 then zs @ [cz coord_i] else zs) @ [cz coord_j],
                  (if i = 0 then mz_values @ [Mz_i ed] else mz_values) @ [Mz_j ed],
                  (if i = 0 then vy_values @ [Vy_i ed] else vy_values) @ [Vy_j ed]) of
            (cs', r) \<Rightarrow> (cs @ cs', r)))"

text \<open>The returned dictionary with the keys \<open>x\<close>, \<open>y\<close>, \<open>z\<close>, \<open>Mz\<close>, \<open>Vy\<close>.\<close>

record girder_geometry =
  geom_x :: "real list"
  geom_y :: "real list"
  geom_z :: "real list"
  geom_Mz :: "real list"
  geom_Vy :: "real list"

definition get_girder_3d_geometry ::
  "data_loader \<Rightarrow> int list \<Rightarrow> lookup_call list \<times> (error + girder_geometry)" where
  "get_girder_3d_geometry dl element_list =
     (case geometry_loop dl 0 element_list ([], [], [], [], []) of
        (cs, Inl e) \<Rightarrow> (cs, Inl e)
      | (cs, Inr (xs, ys, zs, mz_values, vy_values)) \<Rightarrow>
          (cs, Inr \<lparr>geom_x = xs, geom_y = ys, geom_z = zs,
                    geom_Mz = mz_values, geom_Vy = vy_values\<rparr>))"

subsection \<open>calculate\_diagram\_offset\<close>

text \<open>
  \<open>np.max\<close> of an empty array raises \<open>ValueError\<close> (a reduction with no
  identity); on a non-empty array it is the fold of \<open>max\<close> over the entries.
  \<open>np.zeros_like\<close> gives zeros of the same length.
\<close>

definition calculate_diagram_offset :: "real list \<Rightarrow> real \<Rightarrow> error + real list" where
  "calculate_diagram_offset force_values scale_factor =
     (case map abs force_values of
        [] \<Rightarrow> Inl ValueError
      | a # as \<Rightarrow>
         (let max_abs = fold max as a in
          if max_abs = 0 then Inr (map (\<lambda>v. 0) force_values)
          else Inr (map (\<lambda>v. (v / max_abs) * scale_factor) force_values)))"

subsection \<open>Notions used in the statements\<close>

text \<open>An element id resolves when the four lookups made for it all succeed.\<close>

definition resolves :: "data_loader \<Rightarrow> int \<Rightarrow> bool" where
  "resolves dl elem_id =
     (case snd (element_lookups dl elem_id) of Inl e \<Rightarrow> False | Inr r \<Rightarrow> True)"

text \<open>The Euclidean 3D length of an element, from the loader's geometry (\<open>0\<close> for
  an element that does not resolve).\<close>

definition length_of :: "data_loader \<Rightarrow> int \<Rightarrow> real" where
  "length_of dl elem_id =
     (case snd (element_lookups dl elem_id) of
        Inl e \<Rightarrow> 0
      | Inr (ed, coord_i, coord_j) \<Rightarrow> elem_length coord_i coord_j)"

text \<open>The running sums \<open>c + l\<^sub>1\<close>, \<open>c + l\<^sub>1 + l\<^sub>2\<close>, ... of a list of lengths.\<close>

fun running :: "real \<Rightarrow> real list \<Rightarrow> real list" where
  "running c [] = []"
| "running c (l # ls) = (c + l) # running (c + l) ls"

text \<open>
  A lookup call whose id is unknown to the loader: the element id is not in the dataset
  (on a loader whose dataset is not loaded, no element id is), or not in \<open>elements\<close>,
  or the node id is not in \<open>nodes\<close>.
\<close>

fun unknown :: "data_loader \<Rightarrow> lookup_call \<Rightarrow> bool" where
  "unknown dl (Get_element_data e) =
     (case dataset dl of None \<Rightarrow> True | Some ds \<Rightarrow> ds e = None)"
| "unknown dl (Get_element_nodes e) = (elements dl e = None)"
| "unknown dl (Get_node_coords n) = (nodes dl n = None)"


subsection \<open>A test loader\<close>

text \<open>
  Three elements on a straight line along \<open>x\<close>, with nodes at \<open>x = 0, 1, 2, 3\<close> and
  the \<open>Mz\<close> end values \<open>[0, 10]\<close>, \<open>[10, -5]\<close>, \<open>[-5, 0]\<close>; the dataset has no shear
  component under any label. Element id \<open>99\<close> is in none of the tables.
\<close>

definition line_dataset :: "int \<rightharpoonup> elem_row" where
  "line_dataset = [1 \<mapsto> \<lparr>Component = [''Mz_i'', ''Mz_j''], forces = [0, 10]\<rparr>,
                   2 \<mapsto> \<lparr>Component = [''Mz_i'', ''Mz_j''], forces = [10, -5]\<rparr>,
                   3 \<mapsto> \<lparr>Component = [''Mz_i'', ''Mz_j''], forces = [-5, 0]\<rparr>]"

definition line_loader :: data_loader where
  "line_loader =
     \<lparr>dataset = Some line_dataset,
      nodes = [1 \<mapsto> \<lparr>cx = 0, cy = 0, cz = 0\<rparr>, 2 \<mapsto> \<lparr>cx = 1, cy = 0, cz = 0\<rparr>,
               3 \<mapsto> \<lparr>cx = 2, cy = 0, cz = 0\<rparr>, 4 \<mapsto> \<lparr>cx = 3, cy = 0, cz = 0\<rparr>],
      elements = [1 \<mapsto> \<lparr>node_i = 1, node_j = 2\<rparr>, 2 \<mapsto> \<lparr>node_i = 2, node_j = 3\<rparr>,
                  3 \<mapsto> \<lparr>node_i = 3, node_j = 4\<rparr>]\<rparr>"

text \<open>A \<open>DataLoader\<close> as \<open>__init__\<close> leaves it: no dataset, no nodes, no elements.\<close>

definition fresh_loader :: data_loader where
  "fresh_loader = \<lparr>dataset = None, nodes = Map.empty, elements = Map.empty\<rparr>"

text \<open>A loaded dataset whose element \<open>1\<close> has two component labels, neither of them
  an alias of a moment or a shear, and a flattened force array with one value only.\<close>

definition short_dataset :: "int \<rightharpoonup> elem_row" where
  "short_dataset = [1 \<mapsto> \<lparr>Component = [''Fx'', ''Fy''], forces = [7]\<rparr>]"

definition short_loader :: data_loader where
  "short_loader = \<lparr>dataset = Some short_dataset, nodes = Map.empty, elements = Map.empty\<rparr>"

text \<open>A loader that knows every id: element \<open>e\<close> joins the nodes \<open>e\<close> and \<open>e + 1\<close>,
  node \<open>n\<close> lies at \<open>x = n\<close>, and every element has the same four force values.\<close>

definition chain_loader :: data_loader where
  "chain_loader =
     \<lparr>dataset = Some (\<lambda>e. Some \<lparr>Component = [''Mz_i'', ''Mz_j'', ''Vy_i'', ''Vy_j''],
                                  forces = [1, 2, 3, 4]\<rparr>),
      nodes = (\<lambda>n. Some \<lparr>cx = of_int n, cy = 0, cz = 0\<rparr>),
      elements = (\<lambda>e. Some \<lparr>node_i = e, node_j = e + 1\<rparr>)\<rparr>"

section \<open>Auxiliary lemmas\<close>


lemma resolves_lookups:
  "resolves dl e \<longleftrightarrow> (\<exists>cs ed ci cj. element_lookups dl e = (cs, Inr (ed, ci, cj)))"
  by (cases "element_lookups dl e") (auto simp: resolves_def split: sum.splits)

lemma resolves_accessors:
  "resolves dl e \<longleftrightarrow>
     (\<exists>ed en ci cj. get_element_data dl e = Inr ed \<and> get_element_nodes dl e = Inr en
        \<and> get_node_coords dl (node_i en) = Inr ci \<and> get_node_coords dl (node_j en) = Inr cj)"
  by (auto simp: resolves_def element_lookups_def split: sum.splits)

lemma getitem_i:
  "force_type = ''Mz'' \<or> force_type = ''Vy'' \<Longrightarrow>
   elem_data_getitem ed (force_type @ ''_i'') =
     Inr (if force_type = ''Mz'' then Mz_i ed else Vy_i ed)"
  by (auto simp: elem_data_getitem_def)

lemma getitem_j:
  "force_type = ''Mz'' \<or> force_type = ''Vy'' \<Longrightarrow>
   elem_data_getitem ed (force_type @ ''_j'') =
     Inr (if force_type = ''Mz'' then Mz_j ed else Vy_j ed)"
  by (auto simp: elem_data_getitem_def)

lemma extract_loop_Cons_ok:
  assumes "element_lookups dl e = (cs, Inr (ed, ci, cj))"
    and "force_type = ''Mz'' \<or> force_type = ''Vy''"
  shows "extract_loop dl force_type i (e # rest) (ps, vs, cur) =
     (case extract_loop dl force_type (Suc i) rest
             (ps @ [cur + elem_length ci cj],
              (if i = 0 then vs @ [if force_type = ''Mz'' then Mz_i ed else Vy_i ed] else vs)
                @ [if force_type = ''Mz'' then Mz_j ed else Vy_j ed],
              cur + elem_length ci cj) of
        (cs', r) \<Rightarrow> (cs @ cs', r))"
  using assms by (simp add: getitem_i getitem_j)

lemma elem_length_nonneg: "0 \<le> elem_length ci cj"
  by (simp add: elem_length_def)

lemma length_of_nonneg: "0 \<le> length_of dl e"
  by (simp add: length_of_def elem_length_nonneg split: sum.splits prod.splits)

lemma length_running: "length (running c ls) = length ls"
  by (induction ls arbitrary: c) simp_all

lemma running_lower:
  "\<forall>l \<in> set ls. 0 \<le> l \<Longrightarrow> p \<in> set (running c ls) \<Longrightarrow> c \<le> p"
proof (induction ls arbitrary: c)
  case Nil
  then show ?case by simp
next
  case (Cons l ls)
  from Cons.prems have "p = c + l \<or> p \<in> set (running (c + l) ls)" by simp
  moreover have "0 \<le> l" using Cons.prems by simp
  moreover have "p \<in> set (running (c + l) ls) \<Longrightarrow> c + l \<le> p"
    using Cons.IH [of "c + l"] Cons.prems by simp
  ultimately show ?case by auto
qed

lemma running_lower_strict:
  "\<forall>l \<in> set ls. 0 < l \<Longrightarrow> p \<in> set (running c ls) \<Longrightarrow> c < p"
proof (induction ls arbitrary: c)
  case Nil
  then show ?case by simp
next
  case (Cons l ls)
  from Cons.prems have "p = c + l \<or> p \<in> set (running (c + l) ls)" by simp
  moreover have "0 < l" using Cons.prems by simp
  moreover have "p \<in> set (running (c + l) ls) \<Longrightarrow> c + l < p"
    using Cons.IH [of "c + l"] Cons.prems by simp
  ultimately show ?case by auto
qed

lemma sorted_running:
  "\<forall>l \<in> set ls. 0 \<le> l \<Longrightarrow> sorted (c # running c ls)"
proof (induction ls arbitrary: c)
  case Nil
  then show ?case by simp
next
  case (Cons l ls)
  have "sorted ((c + l) # running (c + l) ls)" using Cons by simp
  moreover have "\<forall>p \<in> set (running c (l # ls)). c \<le> p"
    using running_lower [OF Cons.prems] by blast
  ultimately show ?case by simp
qed

lemma strict_sorted_running:
  "\<forall>l \<in> set ls. 0 < l \<Longrightarrow> sorted_wrt (<) (c # running c ls)"
proof (induction ls arbitrary: c)
  case Nil
  then show ?case by simp
next
  case (Cons l ls)
  have "sorted_wrt (<) ((c + l) # running (c + l) ls)" using Cons by simp
  moreover have "\<forall>p \<in> set (running c (l # ls)). c < p"
    using running_lower_strict [OF Cons.prems] by blast
  ultimately show ?case by simp
qed

lemma extract_loop_resolved:
  assumes "force_type = ''Mz'' \<or> force_type = ''Vy''"
    and "\<forall>e \<in> set es. resolves dl e"
  shows "\<exists>vs'. extract_loop dl force_type i es (ps, vs, cur) =
           (concat (map (\<lambda>e. fst (element_lookups dl e)) es),
            Inr (ps @ running cur (map (length_of dl) es), vs'))
     \<and> length vs' = length vs + length es + (if i = 0 \<and> es \<noteq> [] then 1 else 0)"
  using assms(2)
proof (induction es arbitrary: i ps vs cur)
  case Nil
  then show ?case by simp
next
  case (Cons e es)
  from Cons.prems obtain cs ed ci cj where lk: "element_lookups dl e = (cs, Inr (ed, ci, cj))"
    by (auto simp: resolves_lookups)
  have len: "length_of dl e = elem_length ci cj"
    by (simp add: length_of_def lk)
  from Cons.prems have rest: "\<forall>e \<in> set es. resolves dl e" by simp
  let ?ps = "ps @ [cur + elem_length ci cj]"
  let ?vs = "(if i = 0 then vs @ [if force_type = ''Mz'' then Mz_i ed else Vy_i ed] else vs)
                @ [if force_type = ''Mz'' then Mz_j ed else Vy_j ed]"
  let ?cur = "cur + elem_length ci cj"
  from Cons.IH [OF rest, of "Suc i" ?ps ?vs ?cur]
  obtain vs' where
    r: "extract_loop dl force_type (Suc i) es (?ps, ?vs, ?cur) =
          (concat (map (\<lambda>e. fst (element_lookups dl e)) es),
           Inr (?ps @ running ?cur (map (length_of dl) es), vs'))"
    and lv: "length vs' = length ?vs + length es"
    by auto
  have eq: "extract_loop dl force_type i (e # es) (ps, vs, cur) =
     (concat (map (\<lambda>e. fst (element_lookups dl e)) (e # es)),
      Inr (ps @ running cur (map (length_of dl) (e # es)), vs'))"
    by (subst extract_loop_Cons_ok [OF lk assms(1)]) (simp add: r lk len)
  show ?case
    using eq lv by auto
qed


subsection \<open>The test loader, evaluated\<close>

lemmas accessor_defs =
  get_element_data_def get_element_nodes_def get_node_coords_def build_comp_map_def
  Mz_i_keys_def Mz_j_keys_def Vy_i_keys_def Vy_j_keys_def

lemma line_element_1:
  "element_lookups line_loader 1 =
     ([Get_element_data 1, Get_element_nodes 1, Get_node_coords 1, Get_node_coords 2],
      Inr (\<lparr>Mz_i = 0, Mz_j = 10, Vy_i = 0, Vy_j = 0\<rparr>,
           \<lparr>cx = 0, cy = 0, cz = 0\<rparr>, \<lparr>cx = 1, cy = 0, cz = 0\<rparr>))"
  by (simp add: element_lookups_def line_loader_def line_dataset_def accessor_defs)

lemma line_element_2:
  "element_lookups line_loader 2 =
     ([Get_element_data 2, Get_element_nodes 2, Get_node_coords 2, Get_node_coords 3],
      Inr (\<lparr>Mz_i = 10, Mz_j = -5, Vy_i = 0, Vy_j = 0\<rparr>,
           \<lparr>cx = 1, cy = 0, cz = 0\<rparr>, \<lparr>cx = 2, cy = 0, cz = 0\<rparr>))"
  by (simp add: element_lookups_def line_loader_def line_dataset_def accessor_defs)

lemma line_element_3:
  "element_lookups line_loader 3 =
     ([Get_element_data 3, Get_element_nodes 3, Get_node_coords 3, Get_node_coords 4],
      Inr (\<lparr>Mz_i = -5, Mz_j = 0, Vy_i = 0, Vy_j = 0\<rparr>,
           \<lparr>cx = 2, cy = 0, cz = 0\<rparr>, \<lparr>cx = 3, cy = 0, cz = 0\<rparr>))"
  by (simp add: element_lookups_def line_loader_def line_dataset_def accessor_defs)

lemma line_element_99:
  "element_lookups line_loader 99 = ([Get_element_data 99], Inl KeyError)"
  by (simp add: element_lookups_def line_loader_def line_dataset_def accessor_defs)

lemma line_resolves:
  "resolves line_loader 1" "resolves line_loader 2" "resolves line_loader 3"
  "\<not> resolves line_loader 99"
  by (simp_all add: resolves_def line_element_1 line_element_2 line_element_3 line_element_99)

lemma line_lengths:
  "length_of line_loader 1 = 1" "length_of line_loader 2 = 1" "length_of line_loader 3 = 1"
  by (simp_all add: length_of_def line_element_1 line_element_2 line_element_3 elem_length_def)

text \<open>The scenario of the specification: positions \<open>[0, 1, 2, 3]\<close> and values
  \<open>[0, 10, -5, 0]\<close>, after twelve lookups.\<close>

lemma line_scenario:
  "extract_girder_forces line_loader [1, 2, 3] ''Mz'' =
     ([Get_element_data 1, Get_element_nodes 1, Get_node_coords 1, Get_node_coords 2,
       Get_element_data 2, Get_element_nodes 2, Get_node_coords 2, Get_node_coords 3,
       Get_element_data 3, Get_element_nodes 3, Get_node_coords 3, Get_node_coords 4],
      Inr ([0, 1, 2, 3], [0, 10, -5, 0]))"
  by (simp add: extract_girder_forces_def line_element_1 line_element_2 line_element_3
      elem_data_getitem_def elem_length_def)

subsection \<open>Station counts on resolvable ids\<close>

lemma chain_resolves: "resolves chain_loader e"
  by (simp add: resolves_accessors chain_loader_def get_element_data_def
      get_element_nodes_def get_node_coords_def Let_def)

lemma extract_resolved:
  assumes "force_type = ''Mz'' \<or> force_type = ''Vy''"
    and "\<forall>e \<in> set element_list. resolves dl e"
  shows "\<exists>vals. snd (extract_girder_forces dl element_list force_type) =
           Inr (0 # running 0 (map (length_of dl) element_list), vals)
     \<and> length vals = length element_list + (if element_list = [] then 0 else 1)"
proof -
  from extract_loop_resolved [OF assms, of 0 "[0]" "[]" 0]
  obtain vs' where
    r: "extract_loop dl force_type 0 element_list ([0], [], 0) =
          (concat (map (\<lambda>e. fst (element_lookups dl e)) element_list),
           Inr ([0] @ running 0 (map (length_of dl) element_list), vs'))"
    and lv: "length vs' = length element_list + (if element_list = [] then 0 else 1)"
    by auto
  have "snd (extract_girder_forces dl element_list force_type) =
          Inr (0 # running 0 (map (length_of dl) element_list), vs')"
    using assms(1) by (auto simp: extract_girder_forces_def r)
  with lv show ?thesis by blast
qed

lemma geometry_loop_resolved:
  assumes "\<forall>e \<in> set es. resolves dl e"
  shows "\<exists>xs' ys' zs' mz' vy'.
           snd (geometry_loop dl i es (xs, ys, zs, mz, vy)) = Inr (xs', ys', zs', mz', vy')
         \<and> length xs' = length xs + length es + (if i = 0 \<and> es \<noteq> [] then 1 else 0)
         \<and> length ys' = length ys + length es + (if i = 0 \<and> es \<noteq> [] then 1 else 0)
         \<and> length zs' = length zs + length es + (if i = 0 \<and> es \<noteq> [] then 1 else 0)
         \<and> length mz' = length mz + length es + (if i = 0 \<and> es \<noteq> [] then 1 else 0)
         \<and> length vy' = length vy + length es + (if i = 0 \<and> es \<noteq> [] then 1 else 0)"
  using assms
proof (induction es arbitrary: i xs ys zs mz vy)
  case Nil
  then show ?case by simp
next
  case (Cons e es)
  from Cons.prems obtain cs ed ci cj where lk: "element_lookups dl e = (cs, Inr (ed, ci, cj))"
    by (auto simp: resolves_lookups)
  from Cons.prems have rest: "\<forall>e \<in> set es. resolves dl e" by simp
  let ?xs = "(if i = 0 then xs @ [cx ci] else xs) @ [cx cj]"
  let ?ys = "(if i = 0 then ys @ [cy ci] else ys) @ [cy cj]"
  let ?zs = "(if i = 0 then zs @ [cz ci] else zs) @ [cz cj]"
  let ?mz = "(if i = 0 then mz @ [Mz_i ed] else mz) @ [Mz_j ed]"
  let ?vy = "(if i = 0 then vy @ [Vy_i ed] else vy) @ [Vy_j ed]"
  have eq: "snd (geometry_loop dl i (e # es) (xs, ys, zs, mz, vy)) =
            snd (geometry_loop dl (Suc i) es (?xs, ?ys, ?zs, ?mz, ?vy))"
    by (simp add: lk case_prod_beta)
  from Cons.IH [OF rest, of "Suc i" ?xs ?ys ?zs ?mz ?vy]
  obtain xs' ys' zs' mz' vy' where
    r: "snd (geometry_loop dl (Suc i) es (?xs, ?ys, ?zs, ?mz, ?vy)) = Inr (xs', ys', zs', mz', vy')"
    and l: "length xs' = length ?xs + length es" "length ys' = length ?ys + length es"
      "length zs' = length ?zs + length es" "length mz' = length ?mz + length es"
      "length vy' = length ?vy + length es"
    by auto
  show ?case
    unfolding eq r using l by simp
qed

lemma geometry_resolved:
  assumes "\<forall>e \<in> set element_list. resolves dl e"
  shows "\<exists>g. snd (get_girder_3d_geometry dl element_list) = Inr g
     \<and> length (geom_x g) = length element_list + (if element_list = [] then 0 else 1)
     \<and> length (geom_y g) = length element_list + (if element_list = [] then 0 else 1)
     \<and> length (geom_z g) = length element_list + (if element_list = [] then 0 else 1)
     \<and> length (geom_Mz g) = length element_list + (if element_list = [] then 0 else 1)
     \<and> length (geom_Vy g) = length element_list + (if element_list = [] then 0 else 1)"
proof -
  from geometry_loop_resolved [OF assms, of 0 "[]" "[]" "[]" "[]" "[]"]
  obtain xs' ys' zs' mz' vy' where
    r: "snd (geometry_loop dl 0 element_list ([], [], [], [], [])) = Inr (xs', ys', zs', mz', vy')"
    and l: "length xs' = length element_list + (if element_list = [] then 0 else 1)"
      "length ys' = length element_list + (if element_list = [] then 0 else 1)"
      "length zs' = length element_list + (if element_list = [] then 0 else 1)"
      "length mz' = length element_list + (if element_list = [] then 0 else 1)"
      "length vy' = length element_list + (if element_list = [] then 0 else 1)"
    by auto
  obtain cs where "geometry_loop dl 0 element_list ([], [], [], [], []) = (cs, Inr (xs', ys', zs', mz', vy'))"
    using r by (cases "geometry_loop dl 0 element_list ([], [], [], [], [])") simp
  then have "snd (get_girder_3d_geometry dl element_list) =
      Inr \<lparr>geom_x = xs', geom_y = ys', geom_z = zs', geom_Mz = mz', geom_Vy = vy'\<rparr>"
    by (simp add: get_girder_3d_geometry_def)
  with l show ?thesis by simp
qed

lemma girder_entry_sizes:
  assumes "(name, cfg) \<in> set GIRDER_CONFIGS"
    and "map_of cfg ''elements'' = Some es" and "map_of cfg ''nodes'' = Some ns"
  shows "length es = 9 \<and> length ns = 10"
  using assms by (auto simp: GIRDER_CONFIGS_def)

section \<open>Properties\<close>

subsection \<open>The topology table\<close>

text \<open>
  C10. In the static girder topology table there are five girders, and every entry has
  9 elements and 10 nodes, so the number of nodes is the number of elements plus one.
  This is the station count of the extractors: on the elements of an entry, when they
  resolve, every array returned by \<open>extract_girder_forces\<close> and by
  \<open>get_girder_3d_geometry\<close> has as many entries as the entry has nodes.
\<close>

theorem girder_configs_sizes:
  "map (\<lambda>(name, cfg). girder_sizes cfg) GIRDER_CONFIGS = replicate 5 (Some 9, Some 10)
   \<and> list_all (\<lambda>(name, cfg). case girder_sizes cfg of
                 (Some ne, Some nn) \<Rightarrow> nn = ne + 1 | _ \<Rightarrow> False) GIRDER_CONFIGS
   \<and> ((name, cfg) \<in> set GIRDER_CONFIGS \<and> map_of cfg ''elements'' = Some es
        \<and> map_of cfg ''nodes'' = Some ns
        \<and> (force_type = ''Mz'' \<or> force_type = ''Vy'') \<and> (\<forall>e \<in> set es. resolves dl e)
      \<longrightarrow> (\<exists>positions vals.
             snd (extract_girder_forces dl es force_type) = Inr (positions, vals)
           \<and> length positions = length ns \<and> length vals = length ns)
        \<and> (\<exists>g. snd (get_girder_3d_geometry dl es) = Inr g
           \<and> length (geom_x g) = length ns \<and> length (geom_y g) = length ns
           \<and> length (geom_z g) = length ns \<and> length (geom_Mz g) = length ns
           \<and> length (geom_Vy g) = length ns))"
proof (intro conjI impI)
  show "map (\<lambda>(name, cfg). girder_sizes cfg) GIRDER_CONFIGS = replicate 5 (Some 9, Some 10)"
    by (simp add: GIRDER_CONFIGS_def girder_sizes_def numeral_eq_Suc)
  show "list_all (\<lambda>(name, cfg). case girder_sizes cfg of
                 (Some ne, Some nn) \<Rightarrow> nn = ne + 1 | _ \<Rightarrow> False) GIRDER_CONFIGS"
    by (simp add: GIRDER_CONFIGS_def girder_sizes_def)
next
  assume a: "(name, cfg) \<in> set GIRDER_CONFIGS \<and> map_of cfg ''elements'' = Some es
        \<and> map_of cfg ''nodes'' = Some ns
        \<and> (force_type = ''Mz'' \<or> force_type = ''Vy'') \<and> (\<forall>e \<in> set es. resolves dl e)"
  then have sz: "length es = 9" "length ns = 10"
    using girder_entry_sizes [of name cfg es ns] by simp_all
  then have ne: "es \<noteq> []" by auto
  from a extract_resolved [of force_type es dl]
  obtain vals where
    "snd (extract_girder_forces dl es force_type) =
       Inr (0 # running 0 (map (length_of dl) es), vals)"
    "length vals = length es + 1"
    using ne by auto
  then show "\<exists>positions vals.
             snd (extract_girder_forces dl es force_type) = Inr (positions, vals)
           \<and> length positions = length ns \<and> length vals = length ns"
    using sz by (simp add: length_running)
  from a geometry_resolved [of es dl] ne sz
  show "\<exists>g. snd (get_girder_3d_geometry dl es) = Inr g
           \<and> length (geom_x g) = length ns \<and> length (geom_y g) = length ns
           \<and> length (geom_z g) = length ns \<and> length (geom_Mz g) = length ns
           \<and> length (geom_Vy g) = length ns"
    by auto
qed

theorem girder_configs_sizes_witness:
  "(''Girder_3'', [(''elements'', [15, 24, 33, 42, 51, 60, 69, 78, 83]),
                   (''nodes'', [3, 13, 18, 23, 28, 33, 38, 43, 48, 8])]) \<in> set GIRDER_CONFIGS
   \<and> list_all (resolves chain_loader) [15, 24, 33, 42, 51, 60, 69, 78, 83]
   \<and> (\<exists>positions vals.
         snd (extract_girder_forces chain_loader [15, 24, 33, 42, 51, 60, 69, 78, 83] ''Mz'')
           = Inr (positions, vals)
       \<and> length positions = length [3, 13, 18, 23, 28, 33, 38, 43, 48, 8 :: int]
       \<and> length vals = length [3, 13, 18, 23, 28, 33, 38, 43, 48, 8 :: int])
   \<and> (\<exists>g. snd (get_girder_3d_geometry chain_loader [15, 24, 33, 42, 51, 60, 69, 78, 83]) = Inr g
       \<and> length (geom_x g) = length [3, 13, 18, 23, 28, 33, 38, 43, 48, 8 :: int]
       \<and> length (geom_Mz g) = length [3, 13, 18, 23, 28, 33, 38, 43, 48, 8 :: int]
       \<and> length (geom_Vy g) = length [3, 13, 18, 23, 28, 33, 38, 43, 48, 8 :: int])"
proof -
  have m: "(''Girder_3'', [(''elements'', [15, 24, 33, 42, 51, 60, 69, 78, 83]),
                   (''nodes'', [3, 13, 18, 23, 28, 33, 38, 43, 48, 8])]) \<in> set GIRDER_CONFIGS"
    by (simp add: GIRDER_CONFIGS_def)
  show ?thesis
    using girder_configs_sizes [of "''Girder_3''"
        "[(''elements'', [15, 24, 33, 42, 51, 60, 69, 78, 83]),
          (''nodes'', [3, 13, 18, 23, 28, 33, 38, 43, 48, 8])]"
        "[15, 24, 33, 42, 51, 60, 69, 78, 83]" "[3, 13, 18, 23, 28, 33, 38, 43, 48, 8]"
        "''Mz''" chain_loader] m
    by (auto simp: chain_resolves)
qed

subsection \<open>Argument validation\<close>

text \<open>
  C3. For every element list and every component that is neither \<open>Mz\<close> nor \<open>Vy\<close>,
  \<open>extract_girder_forces\<close> raises \<open>ValueError\<close> and has made no lookup call.
\<close>

theorem extract_invalid_component:
  "force_type \<noteq> ''Mz'' \<Longrightarrow> force_type \<noteq> ''Vy'' \<Longrightarrow>
   extract_girder_forces dl element_list force_type = ([], Inl ValueError)"
  by (simp add: extract_girder_forces_def)

theorem extract_invalid_component_witness:
  "''Fx'' \<noteq> ''Mz'' \<and> ''Fx'' \<noteq> ''Vy'' \<and>
   extract_girder_forces \<lparr>dataset = None, nodes = Map.empty, elements = Map.empty\<rparr>
     [15, 24] ''Fx'' = ([], Inl ValueError)"
  using extract_invalid_component
    [of "''Fx''" "\<lparr>dataset = None, nodes = Map.empty, elements = Map.empty\<rparr>" "[15, 24]"]
  by simp

text \<open>
  C2 (as claimed: an empty element list fails with an invalid-argument error before any
  lookup). The code has no check of the list: with a valid component and the empty
  list the loop body never runs, no lookup is made and the call returns the
  positions \<open>[0.0]\<close> with an empty array of values.
\<close>

theorem extract_empty_list_counterexample:
  "extract_girder_forces line_loader [] ''Mz'' = ([], Inr ([0], []))"
  by (simp add: extract_girder_forces_def)

text \<open>
  C2, amended. With an empty element list \<open>extract_girder_forces\<close> makes no lookup
  call; it raises \<open>ValueError\<close> when the component is neither \<open>Mz\<close> nor \<open>Vy\<close>, and
  otherwise returns the positions \<open>[0.0]\<close> and no values.
\<close>

theorem extract_empty_list:
  "extract_girder_forces dl [] force_type =
     ([], if force_type = ''Mz'' \<or> force_type = ''Vy'' then Inr ([0], []) else Inl ValueError)"
  by (simp add: extract_girder_forces_def)

subsection \<open>Station sequences\<close>

text \<open>
  C1. For a non-empty element list whose ids all resolve and a component \<open>Mz\<close> or
  \<open>Vy\<close>, \<open>extract_girder_forces\<close> returns positions and values, both of length
  \<open>len(element_list) + 1\<close>, and the first position is \<open>0\<close>.
\<close>

theorem extract_lengths:
  assumes "element_list \<noteq> []"
    and "force_type = ''Mz'' \<or> force_type = ''Vy''"
    and "\<forall>e \<in> set element_list. resolves dl e"
  shows "\<exists>positions vals.
           snd (extract_girder_forces dl element_list force_type) = Inr (positions, vals)
         \<and> length positions = length element_list + 1
         \<and> length vals = length element_list + 1
         \<and> positions ! 0 = 0"
proof -
  from extract_loop_resolved [OF assms(2,3), of 0 "[0]" "[]" 0]
  obtain vs' where
    r: "extract_loop dl force_type 0 element_list ([0], [], 0) =
          (concat (map (\<lambda>e. fst (element_lookups dl e)) element_list),
           Inr ([0] @ running 0 (map (length_of dl) element_list), vs'))"
    and lv: "length vs' = length element_list + 1"
    using assms(1) by auto
  have "snd (extract_girder_forces dl element_list force_type) =
          Inr (0 # running 0 (map (length_of dl) element_list), vs')"
    using assms(2) by (auto simp: extract_girder_forces_def r)
  then show ?thesis
    using lv by (simp add: length_running)
qed

theorem extract_lengths_witness:
  "[1, 2, 3] \<noteq> ([] :: int list) \<and> resolves line_loader 1 \<and> resolves line_loader 2
   \<and> resolves line_loader 3
   \<and> (\<exists>positions vals.
         snd (extract_girder_forces line_loader [1, 2, 3] ''Mz'') = Inr (positions, vals)
       \<and> length positions = length [1, 2, 3 :: int] + 1
       \<and> length vals = length [1, 2, 3 :: int] + 1 \<and> positions ! 0 = 0)"
  using extract_lengths [of "[1, 2, 3]" "''Mz''" line_loader]
  by (simp add: line_resolves)

text \<open>
  C5. For a valid input (ids that resolve, component \<open>Mz\<close> or \<open>Vy\<close>) the returned
  positions are non-decreasing, and strictly increasing when every element has a
  Euclidean 3D length greater than zero.
\<close>

theorem positions_monotone:
  assumes "force_type = ''Mz'' \<or> force_type = ''Vy''"
    and "\<forall>e \<in> set element_list. resolves dl e"
  shows "\<exists>positions vals.
           snd (extract_girder_forces dl element_list force_type) = Inr (positions, vals)
         \<and> sorted positions
         \<and> ((\<forall>e \<in> set element_list. 0 < length_of dl e) \<longrightarrow> sorted_wrt (<) positions)"
proof -
  let ?ls = "map (length_of dl) element_list"
  from extract_loop_resolved [OF assms, of 0 "[0]" "[]" 0]
  obtain vs' where
    r: "extract_loop dl force_type 0 element_list ([0], [], 0) =
          (concat (map (\<lambda>e. fst (element_lookups dl e)) element_list),
           Inr ([0] @ running 0 ?ls, vs'))"
    by auto
  have res: "snd (extract_girder_forces dl element_list force_type) =
          Inr (0 # running 0 ?ls, vs')"
    using assms(1) by (auto simp: extract_girder_forces_def r)
  have "\<forall>l \<in> set ?ls. 0 \<le> l"
    by (simp add: length_of_nonneg)
  then have s: "sorted (0 # running 0 ?ls)"
    by (rule sorted_running)
  have st: "sorted_wrt (<) (0 # running 0 ?ls)" if "\<forall>e \<in> set element_list. 0 < length_of dl e"
  proof -
    from that have "\<forall>l \<in> set ?ls. 0 < l" by simp
    then show ?thesis by (rule strict_sorted_running)
  qed
  show ?thesis
    using res s st by blast
qed

theorem positions_monotone_witness:
  "resolves line_loader 1 \<and> resolves line_loader 2 \<and> resolves line_loader 3
   \<and> 0 < length_of line_loader 1 \<and> 0 < length_of line_loader 2 \<and> 0 < length_of line_loader 3
   \<and> (\<exists>positions vals.
         snd (extract_girder_forces line_loader [1, 2, 3] ''Mz'') = Inr (positions, vals)
       \<and> sorted positions \<and> sorted_wrt (<) positions)"
  using positions_monotone [of "''Mz''" "[1, 2, 3]" line_loader]
  by (simp add: line_resolves line_lengths)

subsection \<open>Missing entities\<close>

lemma lookups_unknown:
  assumes "element_lookups dl e = (cs, r)" and "\<exists>c \<in> set cs. unknown dl c"
    and "dataset dl \<noteq> None"
  shows "r = Inl KeyError"
  using assms
  by (auto simp: element_lookups_def get_element_data_def get_element_nodes_def
      get_node_coords_def Let_def split: sum.splits option.splits if_splits)

lemma lookups_error_loaded:
  assumes "element_lookups dl e = (cs, Inl err)" and "dataset dl \<noteq> None"
  shows "err = KeyError"
  using assms
  by (auto simp: element_lookups_def get_element_data_def get_element_nodes_def
      get_node_coords_def Let_def split: sum.splits option.splits if_splits)

lemma extract_loop_unknown:
  assumes "extract_loop dl force_type i es (ps, vs, cur) = (cs, r)"
    and "\<exists>c \<in> set cs. unknown dl c"
    and loaded: "dataset dl \<noteq> None"
  shows "r = Inl KeyError"
  using assms(1,2)
proof (induction es arbitrary: i ps vs cur cs r)
  case Nil
  then show ?case by simp
next
  case (Cons e es)
  obtain cs1 r1 where lk: "element_lookups dl e = (cs1, r1)"
    by (cases "element_lookups dl e")
  show ?case
  proof (cases r1)
    case (Inl err)
    with Cons.prems lk have "cs = cs1" "r = Inl err" by simp_all
    with Cons.prems lk Inl show ?thesis
      using lookups_unknown [of dl e cs1 "Inl err"] loaded by simp
  next
    case (Inr t)
    obtain ed ci cj where t: "t = (ed, ci, cj)" by (cases t)
    have clean: "\<not> (\<exists>c \<in> set cs1. unknown dl c)"
      using lookups_unknown [of dl e cs1 r1] lk Inr loaded by auto
    show ?thesis
    proof (cases "if i = 0
                then map_sum id (\<lambda>v. vs @ [v]) (elem_data_getitem ed (force_type @ ''_i''))
                else Inr vs")
      case (Inl err)
      with Cons.prems lk Inr t have "cs = cs1" by simp
      with clean Cons.prems show ?thesis by blast
    next
      case vals1: (Inr vals1)
      show ?thesis
      proof (cases "elem_data_getitem ed (force_type @ ''_j'')")
        case (Inl err)
        with Cons.prems lk Inr t vals1 have "cs = cs1" by simp
        with clean Cons.prems show ?thesis by blast
      next
        case vj: (Inr vj)
        obtain cs' r' where rec: "extract_loop dl force_type (Suc i) es
             (ps @ [cur + elem_length ci cj], vals1 @ [vj], cur + elem_length ci cj) = (cs', r')"
          by (cases "extract_loop dl force_type (Suc i) es
             (ps @ [cur + elem_length ci cj], vals1 @ [vj], cur + elem_length ci cj)")
        from Cons.prems(1) lk Inr t vals1 vj rec have eq: "cs = cs1 @ cs'" "r = r'"
          by simp_all
        with clean Cons.prems(2) have "\<exists>c \<in> set cs'. unknown dl c" by auto
        from Cons.IH [OF rec this] eq show ?thesis by simp
      qed
    qed
  qed
qed

lemma extract_loop_unresolved:
  assumes "force_type = ''Mz'' \<or> force_type = ''Vy''"
    and "dataset dl \<noteq> None"
    and "\<exists>e \<in> set es. \<not> resolves dl e"
  shows "snd (extract_loop dl force_type i es (ps, vs, cur)) = Inl KeyError"
  using assms(3)
proof (induction es arbitrary: i ps vs cur)
  case Nil
  then show ?case by simp
next
  case (Cons e es)
  obtain cs1 r1 where lk: "element_lookups dl e = (cs1, r1)"
    by (cases "element_lookups dl e")
  show ?case
  proof (cases r1)
    case (Inl err)
    with lk assms(2) have "err = KeyError" by (auto dest: lookups_error_loaded)
    with lk Inl show ?thesis by simp
  next
    case (Inr t)
    obtain ed ci cj where t: "t = (ed, ci, cj)" by (cases t)
    have "resolves dl e" using lk Inr by (simp add: resolves_def)
    with Cons.prems have rest: "\<exists>e \<in> set es. \<not> resolves dl e" by auto
    let ?ps = "ps @ [cur + elem_length ci cj]"
    let ?vs = "(if i = 0 then vs @ [if force_type = ''Mz'' then Mz_i ed else Vy_i ed] else vs)
                @ [if force_type = ''Mz'' then Mz_j ed else Vy_j ed]"
    let ?cur = "cur + elem_length ci cj"
    have eq: "extract_loop dl force_type i (e # es) (ps, vs, cur) =
       (case extract_loop dl force_type (Suc i) es (?ps, ?vs, ?cur) of
          (cs', r) \<Rightarrow> (cs1 @ cs', r))"
      by (rule extract_loop_Cons_ok [OF lk [unfolded Inr t] assms(1)])
    have "snd (extract_loop dl force_type (Suc i) es (?ps, ?vs, ?cur)) = Inl KeyError"
      by (rule Cons.IH [OF rest])
    then show ?thesis
      unfolding eq by (simp add: case_prod_beta)
  qed
qed

lemma line_unknown_run:
  "extract_girder_forces line_loader [1, 99, 3] ''Mz'' =
     ([Get_element_data 1, Get_element_nodes 1, Get_node_coords 1, Get_node_coords 2,
       Get_element_data 99], Inl KeyError)"
  by (simp add: extract_girder_forces_def line_element_1 line_element_99
      elem_data_getitem_def elem_length_def)

lemma line_facts:
  "unknown line_loader (Get_element_data 99)" "dataset line_loader \<noteq> None"
  by (simp_all add: line_loader_def line_dataset_def)

text \<open>
  C8 (as claimed: an unknown element or node id met during an extraction makes
  \<open>extract_girder_forces\<close> raise the not-found error). On a loader whose dataset is not
  loaded, element id \<open>99\<close> is in no table, the lookup \<open>get_element_data(99)\<close> is made,
  and the call raises \<open>RuntimeError\<close>, not \<open>KeyError\<close>.
\<close>

theorem extract_unknown_id_counterexample:
  "dataset fresh_loader = None \<and> elements fresh_loader 99 = None
   \<and> unknown fresh_loader (Get_element_data 99)
   \<and> extract_girder_forces fresh_loader [99] ''Mz''
       = ([Get_element_data 99], Inl RuntimeError)"
  by (simp add: extract_girder_forces_def element_lookups_def get_element_data_def
      fresh_loader_def)

text \<open>
  C8, amended. On a loader whose dataset is loaded: if a lookup call made during an
  extraction has an id that is unknown to the loader, \<open>extract_girder_forces\<close> raises
  \<open>KeyError\<close>; the result is the error alone, with no arrays. In terms of the data:
  for a valid component and a loaded dataset, one element of the list that does not
  resolve makes the whole extraction raise \<open>KeyError\<close>.
\<close>

theorem extract_unknown_id:
  "(dataset dl \<noteq> None
      \<and> (\<exists>c \<in> set (fst (extract_girder_forces dl element_list force_type)). unknown dl c)
      \<longrightarrow> snd (extract_girder_forces dl element_list force_type) = Inl KeyError)
   \<and> ((force_type = ''Mz'' \<or> force_type = ''Vy'') \<and> dataset dl \<noteq> None
        \<and> (\<exists>e \<in> set element_list. \<not> resolves dl e)
      \<longrightarrow> snd (extract_girder_forces dl element_list force_type) = Inl KeyError)"
proof (intro conjI impI)
  assume a: "dataset dl \<noteq> None
      \<and> (\<exists>c \<in> set (fst (extract_girder_forces dl element_list force_type)). unknown dl c)"
  then have valid: "force_type = ''Mz'' \<or> force_type = ''Vy''"
    by (auto simp: extract_girder_forces_def split: if_splits)
  obtain cs r where e: "extract_loop dl force_type 0 element_list ([0], [], 0) = (cs, r)"
    by (cases "extract_loop dl force_type 0 element_list ([0], [], 0)")
  with valid have eg: "extract_girder_forces dl element_list force_type = (cs, r)"
    by (auto simp: extract_girder_forces_def)
  with a have u: "\<exists>c \<in> set cs. unknown dl c" by simp
  from a have d: "dataset dl \<noteq> None" by simp
  from extract_loop_unknown [OF e u d] eg
  show "snd (extract_girder_forces dl element_list force_type) = Inl KeyError" by simp
next
  assume b: "(force_type = ''Mz'' \<or> force_type = ''Vy'') \<and> dataset dl \<noteq> None
        \<and> (\<exists>e \<in> set element_list. \<not> resolves dl e)"
  then have "snd (extract_loop dl force_type 0 element_list ([0], [], 0)) = Inl KeyError"
    using extract_loop_unresolved by blast
  with b show "snd (extract_girder_forces dl element_list force_type) = Inl KeyError"
    by (auto simp: extract_girder_forces_def)
qed

theorem extract_unknown_id_witness:
  "dataset line_loader \<noteq> None
   \<and> unknown line_loader (Get_element_data 99)
   \<and> Get_element_data 99 \<in> set (fst (extract_girder_forces line_loader [1, 99, 3] ''Mz''))
   \<and> \<not> resolves line_loader 99
   \<and> snd (extract_girder_forces line_loader [1, 99, 3] ''Mz'') = Inl KeyError"
  using extract_unknown_id [of line_loader "[1, 99, 3]" "''Mz''"] line_facts
  by (simp add: line_unknown_run line_resolves)

subsection \<open>The two extractors agree\<close>

lemma extractors_agree_Mz:
  "map_prod id (map_sum id (\<lambda>(xs, ys, zs, mz, vy). mz))
       (geometry_loop dl i es (xs, ys, zs, vals, vy))
   = map_prod id (map_sum id snd) (extract_loop dl ''Mz'' i es (ps, vals, cur))"
proof (induction es arbitrary: i xs ys zs vals vy ps cur)
  case Nil
  then show ?case by simp
next
  case (Cons e es)
  obtain cs1 r1 where lk: "element_lookups dl e = (cs1, r1)"
    by (cases "element_lookups dl e")
  show ?case
  proof (cases r1)
    case (Inl err)
    with lk show ?thesis by simp
  next
    case (Inr t)
    obtain ed ci cj where t: "t = (ed, ci, cj)" by (cases t)
    note lk' = lk [unfolded Inr t]
    show ?thesis
      apply (subst extract_loop_Cons_ok [OF lk'])
       apply simp
      apply (simp add: lk' split: prod.splits)
      using Cons.IH
      apply (metis (no_types, lifting) fst_map_prod snd_map_prod fst_conv snd_conv id_apply)
      done
  qed
qed


lemma extractors_agree_Vy:
  "map_prod id (map_sum id (\<lambda>(xs, ys, zs, mz, vy). vy))
       (geometry_loop dl i es (xs, ys, zs, mz, vals))
   = map_prod id (map_sum id snd) (extract_loop dl ''Vy'' i es (ps, vals, cur))"
proof (induction es arbitrary: i xs ys zs vals mz ps cur)
  case Nil
  then show ?case by simp
next
  case (Cons e es)
  obtain cs1 r1 where lk: "element_lookups dl e = (cs1, r1)"
    by (cases "element_lookups dl e")
  show ?case
  proof (cases r1)
    case (Inl err)
    with lk show ?thesis by simp
  next
    case (Inr t)
    obtain ed ci cj where t: "t = (ed, ci, cj)" by (cases t)
    note lk' = lk [unfolded Inr t]
    show ?thesis
      apply (subst extract_loop_Cons_ok [OF lk'])
       apply simp
      apply (simp add: lk' split: prod.splits)
      using Cons.IH
      apply (metis (no_types, lifting) fst_map_prod snd_map_prod fst_conv snd_conv id_apply)
      done
  qed
qed

text \<open>
  C4. For every element list, the \<open>Mz\<close> array of \<open>get_girder_3d_geometry\<close> is the
  values array of \<open>extract_girder_forces\<close> with \<open>force_type = Mz\<close>, and likewise for
  \<open>Vy\<close>: the two calls make the same lookups, and either both raise the same error
  or both return and the two arrays are equal as lists (same length, same entry at
  every index).
\<close>

theorem geometry_forces_agree:
  "map_prod id (map_sum id geom_Mz) (get_girder_3d_geometry dl element_list)
     = map_prod id (map_sum id snd) (extract_girder_forces dl element_list ''Mz'')
   \<and> map_prod id (map_sum id geom_Vy) (get_girder_3d_geometry dl element_list)
     = map_prod id (map_sum id snd) (extract_girder_forces dl element_list ''Vy'')"
proof
  obtain cs r where g: "geometry_loop dl 0 element_list ([], [], [], [], []) = (cs, r)"
    by (cases "geometry_loop dl 0 element_list ([], [], [], [], [])")
  have mz: "map_prod id (map_sum id (\<lambda>(xs, ys, zs, mz, vy). mz)) (cs, r)
      = map_prod id (map_sum id snd) (extract_loop dl ''Mz'' 0 element_list ([0], [], 0))"
    using extractors_agree_Mz [of dl 0 element_list "[]" "[]" "[]" "[]" "[]" "[0]" 0] g by simp
  have vy: "map_prod id (map_sum id (\<lambda>(xs, ys, zs, mz, vy). vy)) (cs, r)
      = map_prod id (map_sum id snd) (extract_loop dl ''Vy'' 0 element_list ([0], [], 0))"
    using extractors_agree_Vy [of dl 0 element_list "[]" "[]" "[]" "[]" "[]" "[0]" 0] g by simp
  show "map_prod id (map_sum id geom_Mz) (get_girder_3d_geometry dl element_list)
     = map_prod id (map_sum id snd) (extract_girder_forces dl element_list ''Mz'')"
    using mz by (cases r) (auto simp: get_girder_3d_geometry_def extract_girder_forces_def g)
  show "map_prod id (map_sum id geom_Vy) (get_girder_3d_geometry dl element_list)
     = map_prod id (map_sum id snd) (extract_girder_forces dl element_list ''Vy'')"
    using vy by (cases r) (auto simp: get_girder_3d_geometry_def extract_girder_forces_def g)
qed

subsection \<open>The default of a missing force component\<close>

lemma dom_fold_upd:
  "dom (fold (\<lambda>(k, v) m. m(k \<mapsto> v)) kvs m) = dom m \<union> fst ` set kvs"
  by (induction kvs arbitrary: m) auto

lemma dom_build_comp_map:
  "length components \<le> length fs \<Longrightarrow> dom (build_comp_map components fs) = set components"
proof -
  assume le: "length components \<le> length fs"
  have "fst ` set (zip components fs) = set (map fst (zip components fs))" by simp
  also have "\<dots> = set components" using le by (simp only: map_fst_zip_take) (simp add: min_def)
  finally show ?thesis by (simp add: build_comp_map_def dom_fold_upd)
qed

lemma find'_absent: "set keys \<inter> dom comp_map = {} \<Longrightarrow> find' comp_map keys = 0"
  by (induction keys) (auto split: option.splits)

text \<open>
  C7 (as claimed: for every element id present in the force dataset, an end with no
  alias among the component labels gets \<open>0.0\<close> and the lookup does not fail). Element
  \<open>1\<close> of the dataset below is present, with the labels \<open>Fx\<close>, \<open>Fy\<close> and one force
  value; no alias of any of the four ends is a label, and \<open>forces[1]\<close> is out of
  range, so \<open>get_element_data\<close> raises \<open>KeyError\<close>.
\<close>

theorem missing_component_default_counterexample:
  "dataset short_loader = Some short_dataset
   \<and> short_dataset 1 = Some \<lparr>Component = [''Fx'', ''Fy''], forces = [7]\<rparr>
   \<and> set Mz_i_keys \<inter> set [''Fx'', ''Fy''] = {}
   \<and> set Mz_j_keys \<inter> set [''Fx'', ''Fy''] = {}
   \<and> set Vy_i_keys \<inter> set [''Fx'', ''Fy''] = {}
   \<and> set Vy_j_keys \<inter> set [''Fx'', ''Fy''] = {}
   \<and> get_element_data short_loader 1 = Inl KeyError"
  by (simp add: short_loader_def short_dataset_def get_element_data_def
      Mz_i_keys_def Mz_j_keys_def Vy_i_keys_def Vy_j_keys_def)

text \<open>
  C7, amended. For an element id present in the loaded dataset whose flattened force
  array has a value for each of its component labels, \<open>get_element_data\<close> succeeds, and
  an end none of whose aliases is among the labels gets the value \<open>0.0\<close>.
\<close>

theorem missing_component_default:
  assumes "dataset dl = Some ds" and "ds element_id = Some row"
    and "length (Component row) \<le> length (forces row)"
  shows "\<exists>ed. get_element_data dl element_id = Inr ed
     \<and> (set Mz_i_keys \<inter> set (Component row) = {} \<longrightarrow> Mz_i ed = 0)
     \<and> (set Mz_j_keys \<inter> set (Component row) = {} \<longrightarrow> Mz_j ed = 0)
     \<and> (set Vy_i_keys \<inter> set (Component row) = {} \<longrightarrow> Vy_i ed = 0)
     \<and> (set Vy_j_keys \<inter> set (Component row) = {} \<longrightarrow> Vy_j ed = 0)"
proof -
  let ?m = "build_comp_map (Component row) (forces row)"
  have d: "dom ?m = set (Component row)" by (rule dom_build_comp_map [OF assms(3)])
  have "get_element_data dl element_id =
          Inr \<lparr>Mz_i = find' ?m Mz_i_keys, Mz_j = find' ?m Mz_j_keys,
               Vy_i = find' ?m Vy_i_keys, Vy_j = find' ?m Vy_j_keys\<rparr>"
    using assms by (simp add: get_element_data_def Let_def)
  then show ?thesis
    using find'_absent [of _ ?m] d by simp
qed

theorem missing_component_default_witness:
  "dataset line_loader = Some line_dataset
   \<and> line_dataset 1 = Some \<lparr>Component = [''Mz_i'', ''Mz_j''], forces = [0, 10]\<rparr>
   \<and> length [''Mz_i'', ''Mz_j''] \<le> length [0, 10 :: real]
   \<and> set Vy_i_keys \<inter> set [''Mz_i'', ''Mz_j''] = {}
   \<and> set Vy_j_keys \<inter> set [''Mz_i'', ''Mz_j''] = {}
   \<and> (\<exists>ed. get_element_data line_loader 1 = Inr ed \<and> Vy_i ed = 0 \<and> Vy_j ed = 0)"
proof -
  have a: "dataset line_loader = Some line_dataset" by (simp add: line_loader_def)
  have b: "line_dataset 1 = Some \<lparr>Component = [''Mz_i'', ''Mz_j''], forces = [0, 10]\<rparr>"
    by (simp add: line_dataset_def)
  have c: "set Vy_i_keys \<inter> set [''Mz_i'', ''Mz_j''] = {}"
    "set Vy_j_keys \<inter> set [''Mz_i'', ''Mz_j''] = {}"
    by (simp_all add: Vy_i_keys_def Vy_j_keys_def)
  show ?thesis
    using missing_component_default [OF a b] a b c by auto
qed

subsection \<open>The offset scaler\<close>

lemma fold_max_Max: "fold max as (a :: real) = Max (set (a # as))"
  by (simp only: Max.set_eq_fold)

lemma offset_nonempty:
  assumes "force_values \<noteq> []"
  shows "calculate_diagram_offset force_values scale_factor =
     Inr (if Max (abs ` set force_values) = 0 then map (\<lambda>v. 0) force_values
          else map (\<lambda>v. v / Max (abs ` set force_values) * scale_factor) force_values)"
proof -
  obtain v vs where fv: "force_values = v # vs" using assms by (cases force_values) auto
  have "fold max (map abs vs) \<bar>v\<bar> = Max (abs ` set force_values)"
    by (simp only: fold_max_Max fv) simp
  then show ?thesis
    by (simp add: calculate_diagram_offset_def fv Let_def)
qed

lemma max_abs_bound:
  fixes vs :: "real list"
  assumes "x \<in> set vs" shows "\<bar>x\<bar> \<le> Max (abs ` set vs)"
  using assms by (intro Max_ge) auto

lemma max_abs_attained:
  fixes vs :: "real list"
  assumes "vs \<noteq> []" shows "\<exists>x \<in> set vs. \<bar>x\<bar> = Max (abs ` set vs)"
proof -
  have "Max (abs ` set vs) \<in> abs ` set vs"
    using assms by (intro Max_in) auto
  then show ?thesis by auto
qed

lemma max_abs_nonneg:
  fixes vs :: "real list"
  assumes "vs \<noteq> []" shows "0 \<le> Max (abs ` set vs)"
proof -
  from max_abs_attained [OF assms] obtain x where "\<bar>x\<bar> = Max (abs ` set vs)" by auto
  then show ?thesis by (metis abs_ge_zero)
qed

lemma scaled_bound:
  fixes vs :: "real list"
  assumes "x \<in> set vs" and "0 \<le> f" and "Max (abs ` set vs) \<noteq> 0"
  shows "\<bar>x / Max (abs ` set vs) * f\<bar> \<le> f"
proof -
  let ?M = "Max (abs ` set vs)"
  have ne: "vs \<noteq> []" using assms(1) by auto
  have pos: "0 < ?M" using max_abs_nonneg [OF ne] assms(3) by simp
  have "\<bar>x\<bar> / ?M \<le> 1" using max_abs_bound [OF assms(1)] pos by simp
  then have "\<bar>x\<bar> / ?M * f \<le> 1 * f" using assms(2) by (rule mult_right_mono)
  moreover have "\<bar>x / ?M * f\<bar> = \<bar>x\<bar> / ?M * f"
    using pos assms(2) by (simp add: abs_mult)
  ultimately show ?thesis by simp
qed

lemma scaled_sgn:
  fixes vs :: "real list" and x :: real
  assumes "vs \<noteq> []" and "0 < f" and "Max (abs ` set vs) \<noteq> 0"
  shows "sgn (x / Max (abs ` set vs) * f) = sgn x"
proof -
  have pos: "0 < Max (abs ` set vs)" using max_abs_nonneg [OF assms(1)] assms(3) by simp
  then show ?thesis using assms(2) by (simp add: sgn_mult sgn_divide)
qed

lemma scaled_same_side:
  fixes vs :: "real list" and x :: real
  assumes "vs \<noteq> []" and "0 \<le> f"
  shows "0 \<le> (x / Max (abs ` set vs) * f) * x"
proof -
  have m: "0 \<le> Max (abs ` set vs)" by (rule max_abs_nonneg [OF assms(1)])
  have sq: "0 \<le> x * x" by simp
  have "0 \<le> (x * x) / Max (abs ` set vs)" using sq m by (rule divide_nonneg_nonneg)
  then have "0 \<le> (x * x) / Max (abs ` set vs) * f" using assms(2) by (rule mult_nonneg_nonneg)
  moreover have "(x / Max (abs ` set vs) * f) * x = (x * x) / Max (abs ` set vs) * f"
    by (simp add: ac_simps)
  ultimately show ?thesis by (simp only:)
qed

lemma max_abs_scaled:
  fixes vs :: "real list"
  assumes "vs \<noteq> []" and "0 \<le> f" and "Max (abs ` set vs) \<noteq> 0"
  shows "Max (abs ` set (map (\<lambda>v. v / Max (abs ` set vs) * f) vs)) = f"
proof (rule Max_eqI)
  let ?M = "Max (abs ` set vs)"
  show "finite (abs ` set (map (\<lambda>v. v / ?M * f) vs))" by simp
  show "y \<le> f" if "y \<in> abs ` set (map (\<lambda>v. v / ?M * f) vs)" for y
    using that scaled_bound [OF _ assms(2,3)] by auto
  from max_abs_attained [OF assms(1)] obtain x where x: "x \<in> set vs" "\<bar>x\<bar> = ?M" by auto
  have "\<bar>x / ?M * f\<bar> = f"
    using x(2) assms(2,3) by (simp add: abs_mult)
  then show "f \<in> abs ` set (map (\<lambda>v. v / ?M * f) vs)"
    using x(1) by force
qed

lemma max_abs_zeros:
  assumes "vs \<noteq> []"
  shows "Max (abs ` set (map (\<lambda>v. 0 :: real) vs)) = 0"
proof -
  have "set (map (\<lambda>v. 0 :: real) vs) = {0}" using assms by (cases vs) auto
  then show ?thesis by simp
qed


lemma offset_entries:
  fixes force_values :: "real list"
  assumes "force_values \<noteq> []" and "0 \<le> scale_factor"
    and "calculate_diagram_offset force_values scale_factor = Inr r"
    and "i < length force_values"
  shows "\<bar>r ! i\<bar> \<le> scale_factor"
    and "0 \<le> r ! i * force_values ! i"
    and "0 < scale_factor \<Longrightarrow> sgn (r ! i) = sgn (force_values ! i)"
proof -
  let ?M = "Max (abs ` set force_values)"
  have r: "r = (if ?M = 0 then map (\<lambda>v. 0) force_values
                else map (\<lambda>v. v / ?M * scale_factor) force_values)"
    using assms(3) by (simp add: offset_nonempty [OF assms(1)])
  have mem: "force_values ! i \<in> set force_values" using assms(4) by simp
  show "\<bar>r ! i\<bar> \<le> scale_factor"
    using r assms(2,4) scaled_bound [OF mem assms(2)] by (cases "?M = 0") simp_all
  show "0 \<le> r ! i * force_values ! i"
    using r assms(4) scaled_same_side [OF assms(1,2), of "force_values ! i"]
    by (cases "?M = 0") simp_all
  show "sgn (r ! i) = sgn (force_values ! i)" if "0 < scale_factor"
  proof (cases "?M = 0")
    case True
    have "\<bar>force_values ! i\<bar> \<le> 0" using max_abs_bound [OF mem] True by simp
    then have "force_values ! i = 0" by simp
    with r True assms(4) show ?thesis by simp
  next
    case False
    with r assms(4) scaled_sgn [OF assms(1) that False, of "force_values ! i"]
    show ?thesis by simp
  qed
qed

text \<open>
  C6 (as claimed: for every numeric sequence and factor \<open>\<ge> 0\<close> the scaler returns a
  sequence of the same length, whose entries have the sign of the input entries). On the
  empty sequence \<open>np.max\<close> raises \<open>ValueError\<close>; and with factor \<open>0\<close> the entry of a
  positive input is \<open>0\<close>.
\<close>

theorem offset_scaling_counterexample:
  "calculate_diagram_offset [] (3 / 10) = Inl ValueError
   \<and> calculate_diagram_offset [5] 0 = Inr [0]"
  by (simp add: calculate_diagram_offset_def)

text \<open>
  C6, amended. For every non-empty numeric sequence and factor \<open>\<ge> 0\<close>,
  \<open>calculate_diagram_offset\<close> returns a sequence of the same length: all zeros when
  \<open>max(|v|) = 0\<close>, and otherwise \<open>v / max(|v|) * factor\<close> elementwise. Every entry has
  magnitude at most the factor and never the opposite sign of its input entry, and
  exactly the sign of its input entry when the factor is positive. In particular
  \<open>[-10, 5, 10]\<close> with factor \<open>0.3\<close> gives \<open>[-0.3, 0.15, 0.3]\<close>. On the empty
  sequence the call raises \<open>ValueError\<close>, whatever the factor.
\<close>

theorem offset_scaling:
  assumes "force_values \<noteq> []" and "0 \<le> scale_factor"
  shows "\<exists>r. calculate_diagram_offset force_values scale_factor = Inr r
     \<and> length r = length force_values
     \<and> r = (if Max (abs ` set force_values) = 0 then replicate (length force_values) 0
             else map (\<lambda>v. v / Max (abs ` set force_values) * scale_factor) force_values)
     \<and> (\<forall>i < length force_values.
           \<bar>r ! i\<bar> \<le> scale_factor
         \<and> 0 \<le> r ! i * force_values ! i
         \<and> (0 < scale_factor \<longrightarrow> sgn (r ! i) = sgn (force_values ! i)))
     \<and> calculate_diagram_offset [-10, 5, 10] (3 / 10) = Inr [- (3 / 10), 15 / 100, 3 / 10]
     \<and> calculate_diagram_offset [] scale_factor = Inl ValueError"
proof -
  let ?M = "Max (abs ` set force_values)"
  let ?r = "if ?M = 0 then map (\<lambda>v. 0) force_values
            else map (\<lambda>v. v / ?M * scale_factor) force_values"
  have emp: "calculate_diagram_offset [] scale_factor = Inl ValueError"
    by (simp add: calculate_diagram_offset_def)
  have eq: "calculate_diagram_offset force_values scale_factor = Inr ?r"
    by (rule offset_nonempty [OF assms(1)])
  have len: "length ?r = length force_values" by simp
  have form: "?r = (if ?M = 0 then replicate (length force_values) 0
             else map (\<lambda>v. v / ?M * scale_factor) force_values)"
    by (simp add: map_replicate_const)
  have ent: "\<forall>i < length force_values.
           \<bar>?r ! i\<bar> \<le> scale_factor
         \<and> 0 \<le> ?r ! i * force_values ! i
         \<and> (0 < scale_factor \<longrightarrow> sgn (?r ! i) = sgn (force_values ! i))"
    using offset_entries [OF assms eq] by blast
  have ex: "calculate_diagram_offset [-10, 5, 10] (3 / 10) = Inr [- (3 / 10), 15 / 100, 3 / 10]"
    by (simp add: calculate_diagram_offset_def)
  show ?thesis
    using eq len form ent ex emp by blast
qed

theorem offset_scaling_witness:
  "[-10, 5, 10] \<noteq> ([] :: real list) \<and> (0 :: real) \<le> 3 / 10
   \<and> calculate_diagram_offset [-10, 5, 10] (3 / 10) = Inr [- (3 / 10), 15 / 100, 3 / 10]
   \<and> length [- (3 / 10), 15 / 100, 3 / 10 :: real] = length [-10, 5, 10 :: real]
   \<and> \<bar>[- (3 / 10), 15 / 100, 3 / 10 :: real] ! 1\<bar> \<le> 3 / 10
   \<and> sgn ([- (3 / 10), 15 / 100, 3 / 10 :: real] ! 0) = sgn ([-10, 5, 10 :: real] ! 0)
   \<and> calculate_diagram_offset [] (3 / 10) = Inl ValueError"
  using offset_scaling [of "[-10, 5, 10]" "3 / 10"]
  by (simp add: calculate_diagram_offset_def)

text \<open>
  C9. For a factor \<open>\<ge> 0\<close>, scaling twice with the same factor is the same as scaling
  once: the second call returns its argument unchanged (and on the empty sequence both
  raise the same error).
\<close>

theorem offset_idempotent:
  assumes "0 \<le> scale_factor"
  shows "(case calculate_diagram_offset force_values scale_factor of
            Inl e \<Rightarrow> Inl e
          | Inr r \<Rightarrow> calculate_diagram_offset r scale_factor)
         = calculate_diagram_offset force_values scale_factor
       \<and> (force_values \<noteq> [] \<longrightarrow>
            (\<exists>r. calculate_diagram_offset force_values scale_factor = Inr r
                 \<and> calculate_diagram_offset r scale_factor = Inr r))"
proof (cases "force_values = []")
  case True
  then show ?thesis by (simp add: calculate_diagram_offset_def)
next
  case False
  let ?M = "Max (abs ` set force_values)"
  let ?r = "if ?M = 0 then map (\<lambda>v. 0) force_values
            else map (\<lambda>v. v / ?M * scale_factor) force_values"
  have eq: "calculate_diagram_offset force_values scale_factor = Inr ?r"
    by (rule offset_nonempty [OF False])
  have ne: "?r \<noteq> []" using False by simp
  have again: "calculate_diagram_offset ?r scale_factor = Inr ?r"
  proof -
    define r where "r = ?r"
    have rne: "r \<noteq> []" using False by (simp add: r_def)
    have step: "calculate_diagram_offset r scale_factor =
        Inr (if Max (abs ` set r) = 0 then map (\<lambda>v. 0) r
             else map (\<lambda>v. v / Max (abs ` set r) * scale_factor) r)"
      by (rule offset_nonempty [OF rne])
    have "calculate_diagram_offset r scale_factor = Inr r"
    proof (cases "?M = 0 \<or> scale_factor = 0")
      case True
      then have zeros: "r = map (\<lambda>v. 0) force_values"
        by (auto simp: r_def)
      have mx: "Max (abs ` set r) = 0"
        unfolding zeros by (rule max_abs_zeros [OF False])
      have "map (\<lambda>v. 0 :: real) r = r"
        by (simp add: zeros)
      with step mx show ?thesis by simp
    next
      case nz: False
      then have scaled: "r = map (\<lambda>v. v / ?M * scale_factor) force_values"
        by (simp add: r_def)
      have mx: "Max (abs ` set r) = scale_factor"
        unfolding scaled using False assms nz by (intro max_abs_scaled) simp_all
      have "map (\<lambda>v. v / scale_factor * scale_factor) r = r"
        using nz by simp
      with step mx nz show ?thesis by simp
    qed
    then show ?thesis by (simp only: r_def)
  qed
  show ?thesis
    using eq again False by simp
qed

theorem offset_idempotent_witness:
  "(0 :: real) \<le> 3 / 10 \<and> [-10, 5, 10] \<noteq> ([] :: real list)
   \<and> calculate_diagram_offset [-10, 5, 10] (3 / 10) = Inr [- (3 / 10), 15 / 100, 3 / 10]
   \<and> calculate_diagram_offset [- (3 / 10), 15 / 100, 3 / 10] (3 / 10)
       = Inr [- (3 / 10), 15 / 100, 3 / 10]"
  using offset_idempotent [of "3 / 10" "[-10, 5, 10]"]
  by (simp add: calculate_diagram_offset_def)

end
